theory Spec2Isabelle
  imports Main "HOL-Library.Word"
begin

unbundle bit_operations_syntax

section \<open>The adaptor connection of \<^verbatim>\<open>2to1/conn.go\<close>\<close>

text \<open>
  \<^verbatim>\<open>H2AdaptorConn\<close> is a \<^verbatim>\<open>net.Conn\<close> whose \<^verbatim>\<open>Write\<close> buffers the bytes of an
  HTTP/2 client until a complete header block can be peeked from them, dials the server
  the header block names, replays the buffer to it and forwards every later write.

  The packages the file imports (\<^verbatim>\<open>golang.org/x/net/http2\<close>, its \<^verbatim>\<open>hpack\<close>,
  \<^verbatim>\<open>crypto/tls\<close>, \<^verbatim>\<open>net\<close>) are not part of the repository. They enter the model as
  parameters: the frame reader and the header decoder in a record \<open>libs\<close>, the network in
  a record \<open>net\<close> that may differ from one \<^verbatim>\<open>Write\<close> call to the next.
\<close>

subsection \<open>Data\<close>

type_synonym byte = "8 word"

text \<open>\<^verbatim>\<open>connectionPreface = []byte("PRI * HTTP/2.0\r\n\r\nSM\r\n\r\n")\<close>\<close>

definition connectionPreface :: "byte list" where
  "connectionPreface =
     map of_char (''PRI * HTTP/2.0'' @ [CHR 0x0D, CHR 0x0A, CHR 0x0D, CHR 0x0A]
                  @ ''SM'' @ [CHR 0x0D, CHR 0x0A, CHR 0x0D, CHR 0x0A])"

text \<open>
  The error values of the file: the three \<^verbatim>\<open>fmt.Errorf\<close> calls, and the errors that a
  library call hands back (\<^verbatim>\<open>ReadFrame\<close>, \<^verbatim>\<open>DecodeFull\<close>, \<^verbatim>\<open>tls.Dial\<close>, the upstream's
  \<^verbatim>\<open>Write\<close>), which the file passes on or drops without looking inside.
\<close>

datatype error =
    ContinuationBeforeHeaders
  | AuthorityOrSchemeNotFound
  | UnexpectedProtocol string
  | LibraryError string

text \<open>
  What the type switch of \<^verbatim>\<open>tryPeekHeaders\<close> tells apart in an \<^verbatim>\<open>http2.Frame\<close>, with the
  three accessors it calls: \<^verbatim>\<open>StreamID\<close>, \<^verbatim>\<open>HeaderBlockFragment()\<close>, \<^verbatim>\<open>HeadersEnded()\<close>.
\<close>

datatype frame =
    HeadersFrame "32 word" "byte list" bool
  | ContinuationFrame "32 word" "byte list" bool
  | OtherFrame

text \<open>\<^verbatim>\<open>hpack.HeaderField\<close>, of which the file reads the name and the value.\<close>

datatype header_field = HeaderField (Name: string) (Value: string)

text \<open>
  A connection that \<^verbatim>\<open>tls.Dial\<close> returned: a handle (no two dials give the same one), the
  address dialled and \<^verbatim>\<open>cs.NegotiatedProtocol\<close> as \<^verbatim>\<open>VerifyConnection\<close> saw it. An
  upstream \<^verbatim>\<open>net.Conn\<close> is such a connection, bare or wrapped.
\<close>

datatype tls_conn = TlsConn (handle: nat) (remoteAddr: string) (NegotiatedProtocol: string)

datatype net_conn = Tls tls_conn | Http2OverHttp1Conn tls_conn

fun connHandle :: "net_conn \<Rightarrow> nat" where
  "connHandle (Tls t) = handle t"
| "connHandle (Http2OverHttp1Conn t) = handle t"

text \<open>
  Modelled from the spec: \<^verbatim>\<open>newHttp2OverHttp1Conn\<close> is called by \<^verbatim>\<open>dialHTTP2Conn\<close> and
  defined in a file of the repository that is not at hand. The spec describes it as a
  factory \<^verbatim>\<open>wrap(rawConnection) -> connection\<close> whose result satisfies the same stream
  contract; the model keeps the wrapped connection and nothing else.
\<close>

definition newHttp2OverHttp1Conn :: "tls_conn \<Rightarrow> net_conn" where
  "newHttp2OverHttp1Conn tlsConn = Http2OverHttp1Conn tlsConn"

text \<open>
  Modelled from the spec: \<^verbatim>\<open>getValueByKeyFromHeaders\<close> is called by \<^verbatim>\<open>onHeadersBuf\<close> and
  defined in a file of the repository that is not at hand. The spec has it extract the
  value of a field "by exact name match", and treats an absent field like an empty one:
  the value of the first field of that name, the empty string when there is none.
\<close>

fun getValueByKeyFromHeaders :: "header_field list \<Rightarrow> string \<Rightarrow> string" where
  "getValueByKeyFromHeaders [] key = []"
| "getValueByKeyFromHeaders (h # hs) key =
     (if Name h = key then Value h else getValueByKeyFromHeaders hs key)"

text \<open>
  The libraries. \<open>NewFramer b\<close> is \<^verbatim>\<open>http2.NewFramer(nil, bytes.NewBuffer(b))\<close>, a framer
  about to read \<open>b\<close>; \<open>ReadFrame\<close> is one call of \<^verbatim>\<open>framer.ReadFrame()\<close>, which returns an
  error or a frame and leaves the framer in a new state; \<open>DecodeFull\<close> is
  \<^verbatim>\<open>hpack.NewDecoder(4096, nil).DecodeFull\<close>, a function of the block since the decoder is
  new at every call.
\<close>

record 'f libs =
  NewFramer :: "byte list \<Rightarrow> 'f"
  ReadFrame :: "'f \<Rightarrow> error + frame \<times> 'f"
  DecodeFull :: "byte list \<Rightarrow> error + header_field list"

text \<open>
  The network as one \<^verbatim>\<open>Write\<close> call finds it. \<open>tlsDial addr\<close> is the outcome of
  \<^verbatim>\<open>tls.Dial("tcp", addr, tlsConfig)\<close>: an error, or the protocol that the handshake
  negotiated. \<open>connWrite conn b\<close> is what \<^verbatim>\<open>conn.Write(b)\<close> returns.
\<close>

record net =
  tlsDial :: "string \<Rightarrow> error + string"
  connWrite :: "net_conn \<Rightarrow> byte list \<Rightarrow> int \<times> error option"

text \<open>
  The calls the connection makes on the network and the two steps that publish the
  upstream to a concurrent \<^verbatim>\<open>Read\<close>, in program order. The handle of a dialled connection
  is the position of its \<open>TlsDial\<close> in this log.
\<close>

datatype event =
    TlsDial string
  | ConnWrite net_conn "byte list"
  | SetH2conn net_conn
  | CloseH2ConnCreated

type_synonym world = "event list"

text \<open>
  The fields of \<^verbatim>\<open>H2AdaptorConn\<close> that the methods use. \<open>h2ConnCreated\<close> is the channel of
  that name: \<open>True\<close> once it is closed. (\<^verbatim>\<open>decoder\<close> and \<^verbatim>\<open>writeBuf\<close> are set by the
  constructor and never read.)
\<close>

record H2AdaptorConn =
  peekBuf :: "byte list"
  h2conn :: "net_conn option"
  h2ConnCreated :: bool

definition NewH2AdaptorConn :: H2AdaptorConn where
  "NewH2AdaptorConn = \<lparr>peekBuf = [], h2conn = None, h2ConnCreated = False\<rparr>"

text \<open>A call returns its results, or panics (\<^verbatim>\<open>close\<close> of a closed channel).\<close>

datatype 'a outcome = Returned 'a | Panicked

subsection \<open>\<^verbatim>\<open>tryPeekHeaders\<close>\<close>

text \<open>
  One turn of the \<^verbatim>\<open>for\<close> loop after a frame was read: the \<^verbatim>\<open>switch\<close>. It leaves the
  function with a result or goes on to the next frame with the assembly buffers updated.

  A \<^verbatim>\<open>[]byte\<close> result is modelled by its content, \<open>[]\<close> standing for \<^verbatim>\<open>nil\<close>:
  \<^verbatim>\<open>buf.Bytes()\<close> of a buffer made by \<^verbatim>\<open>bytes.NewBuffer(nil)\<close> is \<^verbatim>\<open>nil\<close> until a byte has
  been written to it, and not \<^verbatim>\<open>nil\<close> from then on.
\<close>

datatype loop_step = Return "error + byte list" | Next "32 word \<rightharpoonup> byte list"

fun onFrame :: "(32 word \<rightharpoonup> byte list) \<Rightarrow> frame \<Rightarrow> loop_step" where
  "onFrame streamHeaderBufs (HeadersFrame sid frag ended) =
     (let buf = (case streamHeaderBufs sid of None \<Rightarrow> [] | Some b \<Rightarrow> b) @ frag
      in if ended then Return (Inr buf) else Next (streamHeaderBufs(sid \<mapsto> buf)))"
| "onFrame streamHeaderBufs (ContinuationFrame sid frag ended) =
     (case streamHeaderBufs sid of
        None \<Rightarrow> Return (Inl ContinuationBeforeHeaders)
      | Some b \<Rightarrow>
          (let buf = b @ frag
           in if ended then Return (Inr buf) else Next (streamHeaderBufs(sid \<mapsto> buf))))"
| "onFrame streamHeaderBufs OtherFrame = Next streamHeaderBufs"

text \<open>
  The loop. Nothing in the file bounds the number of frames that \<^verbatim>\<open>ReadFrame\<close> returns,
  so the loop is a partial function: \<open>None\<close> when it runs forever. An error of
  \<^verbatim>\<open>ReadFrame\<close> is logged and the function returns \<^verbatim>\<open>nil, nil\<close>.
\<close>

partial_function (option) peekLoop ::
  "('f \<Rightarrow> error + frame \<times> 'f) \<Rightarrow> 'f \<Rightarrow> (32 word \<rightharpoonup> byte list) \<Rightarrow> (error + byte list) option"
where
  "peekLoop readFrame framer streamHeaderBufs =
     (case readFrame framer of
        Inl err \<Rightarrow> Some (Inr [])
      | Inr (f, framer') \<Rightarrow>
          (case onFrame streamHeaderBufs f of
             Return r \<Rightarrow> Some r
           | Next streamHeaderBufs' \<Rightarrow> peekLoop readFrame framer' streamHeaderBufs'))"

declare peekLoop.simps [code]

definition tryPeekHeaders :: "'f libs \<Rightarrow> H2AdaptorConn \<Rightarrow> (error + byte list) option" where
  "tryPeekHeaders lib c = peekLoop (ReadFrame lib) (NewFramer lib (peekBuf c)) Map.empty"

subsection \<open>\<^verbatim>\<open>dialHTTP2Conn\<close>\<close>

definition dialHTTP2Conn ::
  "net \<Rightarrow> world \<Rightarrow> string \<Rightarrow> string \<Rightarrow> (error + net_conn \<times> string) \<times> world" where
  "dialHTTP2Conn nw w host scheme =
     (let address = host @ '':443'';
          w' = w @ [TlsDial address]
      in case tlsDial nw address of
           Inl err \<Rightarrow> (Inl err, w')
         | Inr protocol \<Rightarrow>
             (let tlsConn = TlsConn (length w) address protocol
              in if protocol = ''h2'' then (Inr (Tls tlsConn, protocol), w')
                 else if protocol = ''http/1.1''
                   then (Inr (newHttp2OverHttp1Conn tlsConn, protocol), w')
                 else (Inl (UnexpectedProtocol protocol), w')))"

subsection \<open>\<^verbatim>\<open>onHeadersBuf\<close>\<close>

definition onHeadersBuf ::
  "'f libs \<Rightarrow> net \<Rightarrow> H2AdaptorConn \<times> world \<Rightarrow> byte list
     \<Rightarrow> error option outcome \<times> H2AdaptorConn \<times> world" where
  "onHeadersBuf lib nw cw headersBuf =
     (let c = fst cw; w = snd cw
      in case DecodeFull lib headersBuf of
           Inl err \<Rightarrow> (Returned (Some err), c, w)
         | Inr headers \<Rightarrow>
             (let authority = getValueByKeyFromHeaders headers '':authority'';
                  scheme = getValueByKeyFromHeaders headers '':scheme''
              in if authority = [] \<or> scheme = []
                 then (Returned (Some AuthorityOrSchemeNotFound), c, w)
                 else
                   (case dialHTTP2Conn nw w authority scheme of
                      (Inl err, w1) \<Rightarrow> (Returned (Some err), c, w1)
                    | (Inr (conn, protocol), w1) \<Rightarrow>
                        (let buf = connectionPreface @ peekBuf c;
                             w2 = w1 @ [ConnWrite conn buf]
                         in case snd (connWrite nw conn buf) of
                              Some err \<Rightarrow> (Returned (Some err), c, w2)
                            | None \<Rightarrow>
                                (let c1 = c\<lparr>h2conn := Some conn\<rparr>;
                                     w3 = w2 @ [SetH2conn conn]
                                 in if h2ConnCreated c1 then (Panicked, c1, w3)
                                    else (Returned None, c1\<lparr>h2ConnCreated := True\<rparr>,
                                          w3 @ [CloseH2ConnCreated]))))))"

subsection \<open>\<^verbatim>\<open>Write\<close>\<close>

text \<open>
  \<^verbatim>\<open>c.peekBuf.Write(buf)\<close> is \<^verbatim>\<open>bytes.Buffer.Write\<close>: it appends, returns \<^verbatim>\<open>len(buf)\<close> and
  its error is always \<^verbatim>\<open>nil\<close>, so the \<^verbatim>\<open>return 0, err\<close> under it is never taken.
\<close>

definition Write ::
  "'f libs \<Rightarrow> net \<Rightarrow> H2AdaptorConn \<times> world \<Rightarrow> byte list
     \<Rightarrow> ((int \<times> error option) outcome \<times> H2AdaptorConn \<times> world) option" where
  "Write lib nw cw buf =
     (let c = fst cw; w = snd cw
      in if buf = connectionPreface then Some (Returned (int (length buf), None), c, w)
         else
           (case h2conn c of
              None \<Rightarrow>
                (let c1 = c\<lparr>peekBuf := peekBuf c @ buf\<rparr>;
                     n = int (length buf)
                 in case tryPeekHeaders lib c1 of
                      None \<Rightarrow> None
                    | Some (Inl err) \<Rightarrow> Some (Returned (0, Some err), c1, w)
                    | Some (Inr headersBuf) \<Rightarrow>
                        if headersBuf \<noteq> [] then
                          (case onHeadersBuf lib nw (c1, w) headersBuf of
                             (Panicked, c2, w2) \<Rightarrow> Some (Panicked, c2, w2)
                           | (Returned (Some err), c2, w2) \<Rightarrow> Some (Returned (0, Some err), c2, w2)
                           | (Returned None, c2, w2) \<Rightarrow> Some (Returned (n, None), c2, w2))
                        else Some (Returned (n, None), c1, w))
            | Some conn \<Rightarrow>
                Some (Returned (connWrite nw conn buf), c, w @ [ConnWrite conn buf])))"

subsection \<open>A sequence of \<^verbatim>\<open>Write\<close> calls\<close>

text \<open>
  The caller writes one buffer after the other, each call finding the network in a state
  of its own, and goes on whatever a call returns; a panic ends the program. The bytes
  forwarded to a connection are those of the \<^verbatim>\<open>Write\<close> calls made on it, in order.
\<close>

fun writes ::
  "'f libs \<Rightarrow> (net \<times> byte list) list \<Rightarrow> H2AdaptorConn \<times> world
     \<Rightarrow> ((int \<times> error option) outcome list \<times> H2AdaptorConn \<times> world) option" where
  "writes lib [] cw = Some ([], cw)"
| "writes lib (x # xs) cw =
     (case Write lib (fst x) cw (snd x) of
        None \<Rightarrow> None
      | Some (Panicked, cw') \<Rightarrow> Some ([Panicked], cw')
      | Some (Returned r, cw') \<Rightarrow>
          (case writes lib xs cw' of
             None \<Rightarrow> None
           | Some (rs, cw'') \<Rightarrow> Some (Returned r # rs, cw'')))"

fun forwarded :: "net_conn \<Rightarrow> world \<Rightarrow> byte list" where
  "forwarded conn [] = []"
| "forwarded conn (ConnWrite c b # w) = (if c = conn then b @ forwarded conn w else forwarded conn w)"
| "forwarded conn (TlsDial a # w) = forwarded conn w"
| "forwarded conn (SetH2conn c # w) = forwarded conn w"
| "forwarded conn (CloseH2ConnCreated # w) = forwarded conn w"

subsection \<open>What the frame reader does during one peek\<close>

text \<open>
  \<open>readFrames n readFrame framer\<close> are the first \<open>n\<close> frames that \<^verbatim>\<open>ReadFrame\<close> returns,
  with the framer after them, when it returns that many without an error;
  \<open>onFrames\<close> is the \<^verbatim>\<open>switch\<close> of the loop applied to them in turn.
\<close>

fun readFrames :: "nat \<Rightarrow> ('f \<Rightarrow> error + frame \<times> 'f) \<Rightarrow> 'f \<Rightarrow> (frame list \<times> 'f) option" where
  "readFrames 0 readFrame framer = Some ([], framer)"
| "readFrames (Suc n) readFrame framer =
     (case readFrame framer of
        Inl err \<Rightarrow> None
      | Inr (f, framer') \<Rightarrow>
          (case readFrames n readFrame framer' of
             None \<Rightarrow> None
           | Some (fs, framer'') \<Rightarrow> Some (f # fs, framer'')))"

fun onFrames :: "(32 word \<rightharpoonup> byte list) \<Rightarrow> frame list \<Rightarrow> loop_step" where
  "onFrames streamHeaderBufs [] = Next streamHeaderBufs"
| "onFrames streamHeaderBufs (f # fs) =
     (case onFrame streamHeaderBufs f of
        Return r \<Rightarrow> Return r
      | Next streamHeaderBufs' \<Rightarrow> onFrames streamHeaderBufs' fs)"

fun isHeadersFor :: "32 word \<Rightarrow> frame \<Rightarrow> bool" where
  "isHeadersFor sid (HeadersFrame sid' frag ended) = (sid' = sid)"
| "isHeadersFor sid (ContinuationFrame sid' frag ended) = False"
| "isHeadersFor sid OtherFrame = False"

section \<open>The libraries on the wire\<close>

text \<open>
  An instance of the two library parameters for the examples of this theory, after
  \<^verbatim>\<open>golang.org/x/net v0.11.0\<close> (the version of \<^verbatim>\<open>go.mod\<close>) and RFC 7540, RFC 7541.
\<close>

subsection \<open>The framer\<close>

text \<open>
  The state of an \<^verbatim>\<open>http2.Framer\<close> that reads from a buffer: the bytes not yet read, the
  stream whose header block is open (\<^verbatim>\<open>lastHeaderStream\<close>, 0 when none is) and the option
  \<^verbatim>\<open>AllowIllegalReads\<close>, which \<^verbatim>\<open>http2.NewFramer\<close> leaves \<^verbatim>\<open>false\<close>.
\<close>

record framer =
  unread :: "byte list"
  lastHeaderStream :: "32 word"
  AllowIllegalReads :: bool

definition framerNew :: "byte list \<Rightarrow> framer" where
  "framerNew b = \<lparr>unread = b, lastHeaderStream = 0, AllowIllegalReads = False\<rparr>"

text \<open>
  The payload of a HEADERS frame (type 1; flags END_HEADERS 4, PADDED 8, PRIORITY 0x20)
  and of a CONTINUATION frame (type 9; END_HEADERS 4). A frame of another type is handed
  on without a look at its payload: the checks that the library makes there are not
  modelled.
\<close>

definition parseHeadersFrame :: "byte \<Rightarrow> 32 word \<Rightarrow> byte list \<Rightarrow> error + frame" where
  "parseHeadersFrame flags sid p =
     (let padded = (flags AND 0x8 \<noteq> 0); priority = (flags AND 0x20 \<noteq> 0)
      in if sid = 0 then Inl (LibraryError ''HEADERS frame with stream ID 0'')
         else if padded \<and> p = [] then Inl (LibraryError ''unexpected EOF'')
         else
           (let padLength = (if padded then unat (hd p) else 0);
                p1 = (if padded then tl p else p)
            in if priority \<and> length p1 < 5 then Inl (LibraryError ''unexpected EOF'')
               else
                 (let p2 = (if priority then drop 5 p1 else p1)
                  in if length p2 < padLength
                     then Inl (LibraryError ''stream error: PROTOCOL_ERROR'')
                     else Inr (HeadersFrame sid (take (length p2 - padLength) p2)
                                 (flags AND 0x4 \<noteq> 0)))))"

definition parseContinuationFrame :: "byte \<Rightarrow> 32 word \<Rightarrow> byte list \<Rightarrow> error + frame" where
  "parseContinuationFrame flags sid p =
     (if sid = 0 then Inl (LibraryError ''CONTINUATION frame with stream ID 0'')
      else Inr (ContinuationFrame sid p (flags AND 0x4 \<noteq> 0)))"

definition parseFrame :: "byte \<Rightarrow> byte \<Rightarrow> 32 word \<Rightarrow> byte list \<Rightarrow> error + frame" where
  "parseFrame ty flags sid p =
     (if ty = 1 then parseHeadersFrame flags sid p
      else if ty = 9 then parseContinuationFrame flags sid p
      else Inr OtherFrame)"

text \<open>
  \<^verbatim>\<open>checkFrameOrder\<close>: while a header block is open only a CONTINUATION of the same stream
  may follow, and a CONTINUATION may follow nothing else. With \<^verbatim>\<open>AllowIllegalReads\<close> the
  check is skipped.
\<close>

definition checkFrameOrder :: "framer \<Rightarrow> byte \<Rightarrow> byte \<Rightarrow> 32 word \<Rightarrow> error + framer" where
  "checkFrameOrder fr ty flags sid =
     (let fr' = (if ty = 1 \<or> ty = 9
                 then fr\<lparr>lastHeaderStream := (if flags AND 0x4 \<noteq> 0 then 0 else sid)\<rparr>
                 else fr)
      in if AllowIllegalReads fr then Inr fr
         else if lastHeaderStream fr \<noteq> 0 then
           (if ty \<noteq> 9 then Inl (LibraryError ''expected CONTINUATION'')
            else if sid \<noteq> lastHeaderStream fr
              then Inl (LibraryError ''got CONTINUATION for another stream'')
            else Inr fr')
         else if ty = 9 then Inl (LibraryError ''unexpected CONTINUATION'')
         else Inr fr')"

text \<open>
  \<^verbatim>\<open>ReadFrame\<close>: the nine bytes of the frame header (a length of 24 bits, the type, the
  flags, a reserved bit and the stream identifier of 31 bits), then the payload.
\<close>

definition framerReadFrame :: "framer \<Rightarrow> error + frame \<times> framer" where
  "framerReadFrame fr =
     (let r = unread fr
      in if r = [] then Inl (LibraryError ''EOF'')
         else if length r < 9 then Inl (LibraryError ''unexpected EOF'')
         else
           (let len = unat (r ! 0) * 65536 + unat (r ! 1) * 256 + unat (r ! 2);
                ty = r ! 3;
                flags = r ! 4;
                sid = (push_bit 24 (ucast (r ! 5)) OR push_bit 16 (ucast (r ! 6))
                       OR push_bit 8 (ucast (r ! 7)) OR ucast (r ! 8)) AND 0x7FFFFFFF;
                rest = drop 9 r
            in if length rest < len
               then Inl (LibraryError (if rest = [] then ''EOF'' else ''unexpected EOF''))
               else
                 (case parseFrame ty flags sid (take len rest) of
                    Inl err \<Rightarrow> Inl err
                  | Inr f \<Rightarrow>
                      (case checkFrameOrder (fr\<lparr>unread := drop len rest\<rparr>) ty flags sid of
                         Inl err \<Rightarrow> Inl err
                       | Inr fr' \<Rightarrow> Inr (f, fr')))))"

subsection \<open>The header decoder\<close>

text \<open>
  The first entries of the static table of RFC 7541, and a decoder of two of its
  representations: the indexed header field and the literal header field with
  incremental indexing whose name is indexed and whose value is a plain string shorter
  than 127 bytes. Every other representation is refused here.
\<close>

fun staticTable :: "nat \<Rightarrow> header_field option" where
  "staticTable n =
     (if n = 1 then Some (HeaderField '':authority'' [])
      else if n = 2 then Some (HeaderField '':method'' ''GET'')
      else if n = 3 then Some (HeaderField '':method'' ''POST'')
      else if n = 4 then Some (HeaderField '':path'' ''/'')
      else if n = 5 then Some (HeaderField '':path'' ''/index.html'')
      else if n = 6 then Some (HeaderField '':scheme'' ''http'')
      else if n = 7 then Some (HeaderField '':scheme'' ''https'')
      else None)"

function hpackDecodeFull :: "byte list \<Rightarrow> error + header_field list" where
  "hpackDecodeFull [] = Inr []"
| "hpackDecodeFull (b # bs) =
     (if b AND 0x80 \<noteq> 0 then
        (case staticTable (unat (b AND 0x7F)) of
           None \<Rightarrow> Inl (LibraryError ''decoding error'')
         | Some hf \<Rightarrow>
             (case hpackDecodeFull bs of
                Inl err \<Rightarrow> Inl err
              | Inr hs \<Rightarrow> Inr (hf # hs)))
      else if b AND 0xC0 = 0x40 then
        (case staticTable (unat (b AND 0x3F)) of
           None \<Rightarrow> Inl (LibraryError ''decoding error'')
         | Some hf \<Rightarrow>
             (case bs of
                [] \<Rightarrow> Inl (LibraryError ''truncated headers'')
              | l # vs \<Rightarrow>
                  if l AND 0x80 \<noteq> 0 \<or> l = 0x7F then Inl (LibraryError ''decoding error'')
                  else if length vs < unat l then Inl (LibraryError ''truncated headers'')
                  else
                    (case hpackDecodeFull (drop (unat l) vs) of
                       Inl err \<Rightarrow> Inl err
                     | Inr hs \<Rightarrow>
                         Inr (HeaderField (Name hf) (map (\<lambda>v. char_of (unat v)) (take (unat l) vs)) # hs))))
      else Inl (LibraryError ''decoding error''))"
  by pat_completeness auto
termination
  by (relation "measure length") auto

definition wireLibs :: "framer libs" where
  "wireLibs = \<lparr>NewFramer = framerNew, ReadFrame = framerReadFrame, DecodeFull = hpackDecodeFull\<rparr>"

subsection \<open>Examples\<close>

text \<open>
  A request: one HEADERS frame (14 bytes of payload, END_HEADERS, stream 1) whose block
  is the indexed field 7, \<^verbatim>\<open>:scheme: https\<close>, and the literal field
  \<^verbatim>\<open>:authority: example.com\<close>. A block with the first of the two fields only, and a
  HEADERS frame that ends a block of no bytes at all. The same
  request in two frames: a HEADERS frame that leaves the block open, and the CONTINUATION
  frame that ends it. A network
  on which every dial negotiates the protocol \<open>p\<close> and every write succeeds, and one on
  which nothing does. A framer that has \<^verbatim>\<open>AllowIllegalReads\<close> set.
\<close>

definition exampleRequest :: "byte list" where
  "exampleRequest = [0, 0, 14, 1, 4, 0, 0, 0, 1, 0x87, 0x41, 11] @ map of_char ''example.com''"

definition schemeOnlyRequest :: "byte list" where
  "schemeOnlyRequest = [0, 0, 1, 1, 4, 0, 0, 0, 1, 0x87]"

definition emptyBlockRequest :: "byte list" where
  "emptyBlockRequest = [0, 0, 0, 1, 4, 0, 0, 0, 1]"

definition openHeaders :: "byte list" where
  "openHeaders = [0, 0, 1, 1, 0, 0, 0, 0, 1, 0x87]"

definition closingContinuation :: "byte list" where
  "closingContinuation = [0, 0, 13, 9, 4, 0, 0, 0, 1, 0x41, 11] @ map of_char ''example.com''"

definition netProto :: "string \<Rightarrow> net" where
  "netProto p = \<lparr>tlsDial = (\<lambda>address. Inr p), connWrite = (\<lambda>conn b. (int (length b), None))\<rparr>"

definition netDown :: net where
  "netDown = \<lparr>tlsDial = (\<lambda>address. Inl (LibraryError ''connection refused'')),
               connWrite = (\<lambda>conn b. (0, Some (LibraryError ''broken pipe'')))\<rparr>"

definition exampleConn :: net_conn where
  "exampleConn = Tls (TlsConn 0 ''example.com:443'' ''h2'')"

definition illegalReadsLibs :: "framer libs" where
  "illegalReadsLibs = wireLibs\<lparr>NewFramer := (\<lambda>b. (framerNew b)\<lparr>AllowIllegalReads := True\<rparr>)\<rparr>"

section \<open>Invariant of a sequence of writes\<close>

text \<open>
  After the caller has written buffers of which \<open>bs\<close> is the concatenation, those equal
  to the preface left out: every connection written to was dialled before; while no
  upstream is set the buffer holds \<open>bs\<close> and the channel is open; once it is set, the
  upstream has been handed the preface and \<open>bs\<close>.
\<close>

definition writesInv :: "byte list \<Rightarrow> H2AdaptorConn \<times> world \<Rightarrow> bool" where
  "writesInv bs cw =
     ((\<forall>conn b. ConnWrite conn b \<in> set (snd cw) \<longrightarrow> connHandle conn < length (snd cw)) \<and>
      (case h2conn (fst cw) of
         None \<Rightarrow> peekBuf (fst cw) = bs \<and> \<not> h2ConnCreated (fst cw)
       | Some conn \<Rightarrow>
           connHandle conn < length (snd cw) \<and>
           forwarded conn (snd cw) = connectionPreface @ bs))"

section \<open>Lemmas\<close>

subsection \<open>Evaluation of the examples\<close>

lemmas wire_eval = wireLibs_def illegalReadsLibs_def framerReadFrame_def framerNew_def parseFrame_def
  parseHeadersFrame_def parseContinuationFrame_def checkFrameOrder_def Let_def char_of_def
  bit_Suc_0_iff exampleRequest_def connectionPreface_def NewH2AdaptorConn_def netProto_def
  netDown_def exampleConn_def schemeOnlyRequest_def emptyBlockRequest_def openHeaders_def closingContinuation_def dialHTTP2Conn_def newHttp2OverHttp1Conn_def

lemmas write_eval = Write_def tryPeekHeaders_def peekLoop.simps onHeadersBuf_def

subsection \<open>The peek loop\<close>

text \<open>
  Unfolding the loop once, and along the frames that the reader returns. The last two
  lemmas are partial correctness, by the induction rule of the fixed point: whatever the
  reader does, the only error that the loop returns is its own.
\<close>

lemma peekLoop_error:
  "readFrame framer = Inl err \<Longrightarrow> peekLoop readFrame framer m = Some (Inr [])"
  by (subst peekLoop.simps) simp

lemma peekLoop_frame:
  "readFrame framer = Inr (f, framer') \<Longrightarrow>
   peekLoop readFrame framer m =
     (case onFrame m f of Return r \<Rightarrow> Some r | Next m' \<Rightarrow> peekLoop readFrame framer' m')"
  by (subst peekLoop.simps) simp

lemma peekLoop_frames:
  "readFrames n readFrame framer = Some (fs, framer') \<Longrightarrow>
   peekLoop readFrame framer m =
     (case onFrames m fs of Return r \<Rightarrow> Some r | Next m' \<Rightarrow> peekLoop readFrame framer' m')"
proof (induction n arbitrary: framer fs m)
  case 0
  then show ?case by simp
next
  case (Suc n)
  from Suc.prems obtain f fr1 fs1 where rd: "readFrame framer = Inr (f, fr1)"
    and rest: "readFrames n readFrame fr1 = Some (fs1, framer')" and fs: "fs = f # fs1"
    by (auto split: sum.splits option.splits)
  show ?case
  proof (cases "onFrame m f")
    case (Return r)
    then show ?thesis using rd fs by (simp add: peekLoop_frame)
  next
    case (Next m1)
    then show ?thesis using rd fs Suc.IH [OF rest, of m1] by (simp add: peekLoop_frame)
  qed
qed

lemma onFrame_error: "onFrame m f = Return (Inl e) \<Longrightarrow> e = ContinuationBeforeHeaders"
  by (cases f) (auto simp: Let_def split: option.splits if_splits)

lemma peekLoop_only_error_aux:
  "peekLoop readFrame framer m = Some r \<Longrightarrow> \<forall>e. r = Inl e \<longrightarrow> e = ContinuationBeforeHeaders"
proof (erule peekLoop.raw_induct [rotated], goal_cases)
  case (1 pl rf fr m r)
  show ?case
  proof (cases "rf fr")
    case (Inl err)
    with 1(2) show ?thesis by auto
  next
    case (Inr p)
    obtain f fr1 where p: "p = (f, fr1)" by (cases p)
    show ?thesis
    proof (cases "onFrame m f")
      case (Return r1)
      with 1(2) Inr p have "r = r1" by simp
      with Return show ?thesis by (auto dest: onFrame_error)
    next
      case (Next m1)
      with 1(2) Inr p have "pl rf fr1 m1 = Some r" by simp
      then show ?thesis by (rule 1(1))
    qed
  qed
qed

lemma peekLoop_only_error:
  "peekLoop readFrame framer m = Some (Inl e) \<Longrightarrow> e = ContinuationBeforeHeaders"
  by (drule peekLoop_only_error_aux) simp

lemma onFrame_dom:
  "onFrame m f = Next m' \<Longrightarrow> (m' sid = None) = (m sid = None \<and> \<not> isHeadersFor sid f)"
  by (cases f) (auto simp: Let_def split: option.splits if_splits)

lemma onFrames_dom:
  "onFrames m fs = Next m' \<Longrightarrow>
   (m' sid = None) = (m sid = None \<and> (\<forall>f \<in> set fs. \<not> isHeadersFor sid f))"
proof (induction fs arbitrary: m)
  case Nil
  then show ?case by simp
next
  case (Cons f fs)
  from Cons.prems obtain m1 where s: "onFrame m f = Next m1" and r: "onFrames m1 fs = Next m'"
    by (auto split: loop_step.splits)
  from Cons.IH [OF r] onFrame_dom [OF s, of sid] show ?case by auto
qed

subsection \<open>The branches of \<^verbatim>\<open>onHeadersBuf\<close> and of \<^verbatim>\<open>Write\<close>\<close>

lemma dialHTTP2Conn_cases:
  assumes "dialHTTP2Conn nw w host scheme = (r, w')"
  shows "w' = w @ [TlsDial (host @ '':443'')] \<and>
         (case r of Inl err \<Rightarrow> True | Inr (conn, protocol) \<Rightarrow> connHandle conn = length w)"
  using assms
  by (auto simp: dialHTTP2Conn_def Let_def newHttp2OverHttp1Conn_def split: sum.splits if_splits)

lemma onHeadersBuf_cases:
  assumes "onHeadersBuf lib nw (c, w) hb = (r, c', w')"
  obtains
    (early) err where "r = Returned (Some err)" "c' = c" "w' = w"
  | (dial) err a where "r = Returned (Some err)" "c' = c" "w' = w @ [TlsDial a]"
  | (flush) err a conn where "r = Returned (Some err)" "c' = c"
      "w' = w @ [TlsDial a, ConnWrite conn (connectionPreface @ peekBuf c)]"
      "connHandle conn = length w"
  | (panic) "r = Panicked" "h2ConnCreated c"
  | (ok) a conn where "r = Returned None" "\<not> h2ConnCreated c"
      "c' = c\<lparr>h2conn := Some conn, h2ConnCreated := True\<rparr>"
      "w' = w @ [TlsDial a, ConnWrite conn (connectionPreface @ peekBuf c), SetH2conn conn,
                 CloseH2ConnCreated]"
      "connHandle conn = length w"
proof (cases "DecodeFull lib hb")
  case (Inl err)
  with assms show ?thesis by (intro early [of err]) (auto simp: onHeadersBuf_def)
next
  case (Inr headers)
  show ?thesis
  proof (cases "getValueByKeyFromHeaders headers '':authority'' = []
                \<or> getValueByKeyFromHeaders headers '':scheme'' = []")
    case True
    with assms Inr show ?thesis
      by (intro early [of AuthorityOrSchemeNotFound]) (auto simp: onHeadersBuf_def Let_def)
  next
    case False
    obtain d w1 where d: "dialHTTP2Conn nw w (getValueByKeyFromHeaders headers '':authority'')
        (getValueByKeyFromHeaders headers '':scheme'') = (d, w1)"
      by (cases "dialHTTP2Conn nw w (getValueByKeyFromHeaders headers '':authority'')
        (getValueByKeyFromHeaders headers '':scheme'')")
    from dialHTTP2Conn_cases [OF d] obtain a where w1: "w1 = w @ [TlsDial a]" by blast
    show ?thesis
    proof (cases d)
      case (Inl err)
      with assms Inr False d w1 show ?thesis
        by (intro dial [of err a]) (auto simp: onHeadersBuf_def Let_def)
    next
      case dr: (Inr p)
      obtain conn protocol where p: "p = (conn, protocol)" by (cases p)
      from dialHTTP2Conn_cases [OF d] dr p have h: "connHandle conn = length w" by simp
      show ?thesis
      proof (cases "snd (connWrite nw conn (connectionPreface @ peekBuf c))")
        case (Some err)
        with assms Inr False d w1 dr p h show ?thesis
          by (intro flush [of err a conn]) (auto simp: onHeadersBuf_def Let_def)
      next
        case None
        show ?thesis
        proof (cases "h2ConnCreated c")
          case True
          with assms Inr False d w1 dr p h None show ?thesis
            by (intro panic) (auto simp: onHeadersBuf_def Let_def)
        next
          case nc: False
          with assms Inr False d w1 dr p h None show ?thesis
            by (intro ok [of conn a]) (auto simp: onHeadersBuf_def Let_def)
        qed
      qed
    qed
  qed
qed

lemma Write_preface:
  "Write lib nw (c, w) connectionPreface = Some (Returned (24, None), c, w)"
  by (simp add: Write_def) (simp add: connectionPreface_def)

lemma Write_live:
  "h2conn c = Some conn \<Longrightarrow> buf \<noteq> connectionPreface \<Longrightarrow>
   Write lib nw (c, w) buf = Some (Returned (connWrite nw conn buf), c, w @ [ConnWrite conn buf])"
  by (simp add: Write_def)

lemma Write_buffering_cases:
  assumes "h2conn c = None" "buf \<noteq> connectionPreface"
    and "Write lib nw (c, w) buf = Some (r, c', w')"
  obtains
    (peekErr) e where "tryPeekHeaders lib (c\<lparr>peekBuf := peekBuf c @ buf\<rparr>) = Some (Inl e)"
      "r = Returned (0, Some e)" "c' = c\<lparr>peekBuf := peekBuf c @ buf\<rparr>" "w' = w"
  | (noHeaders) "tryPeekHeaders lib (c\<lparr>peekBuf := peekBuf c @ buf\<rparr>) = Some (Inr [])"
      "r = Returned (int (length buf), None)" "c' = c\<lparr>peekBuf := peekBuf c @ buf\<rparr>" "w' = w"
  | (headers) hb ro where "tryPeekHeaders lib (c\<lparr>peekBuf := peekBuf c @ buf\<rparr>) = Some (Inr hb)"
      "hb \<noteq> []"
      "onHeadersBuf lib nw (c\<lparr>peekBuf := peekBuf c @ buf\<rparr>, w) hb = (ro, c', w')"
      "r = (case ro of
              Panicked \<Rightarrow> Panicked
            | Returned None \<Rightarrow> Returned (int (length buf), None)
            | Returned (Some e) \<Rightarrow> Returned (0, Some e))"
proof (cases "tryPeekHeaders lib (c\<lparr>peekBuf := peekBuf c @ buf\<rparr>)")
  case None
  with assms show ?thesis by (simp add: Write_def)
next
  case (Some p)
  show ?thesis
  proof (cases p)
    case (Inl e)
    with assms Some show ?thesis by (intro peekErr [of e]) (auto simp: Write_def)
  next
    case (Inr hb)
    show ?thesis
    proof (cases "hb = []")
      case True
      with assms Some Inr show ?thesis by (intro noHeaders) (auto simp: Write_def)
    next
      case False
      obtain ro c2 w2 where o: "onHeadersBuf lib nw (c\<lparr>peekBuf := peekBuf c @ buf\<rparr>, w) hb = (ro, c2, w2)"
        by (cases "onHeadersBuf lib nw (c\<lparr>peekBuf := peekBuf c @ buf\<rparr>, w) hb") auto
      with assms Some Inr False have "c2 = c'" "w2 = w'"
        and "r = (case ro of
              Panicked \<Rightarrow> Panicked
            | Returned None \<Rightarrow> Returned (int (length buf), None)
            | Returned (Some e) \<Rightarrow> Returned (0, Some e))"
        by (auto simp: Write_def split: outcome.splits option.splits)
      with o Some Inr False show ?thesis by (intro headers [of hb ro]) auto
    qed
  qed
qed


lemma Write_peek_error:
  assumes "h2conn c = None" and "buf \<noteq> connectionPreface"
    and "tryPeekHeaders lib (c\<lparr>peekBuf := peekBuf c @ buf\<rparr>) = Some (Inl e)"
  shows "Write lib nw (c, w) buf = Some (Returned (0, Some e), c\<lparr>peekBuf := peekBuf c @ buf\<rparr>, w)"
  using assms by (simp add: Write_def)


lemma getValueByKeyFromHeaders_empty:
  "\<forall>h \<in> set headers. Name h = key \<longrightarrow> Value h = [] \<Longrightarrow> getValueByKeyFromHeaders headers key = []"
  by (induction headers) auto

subsection \<open>The invariant\<close>

lemma forwarded_append: "forwarded conn (w @ w') = forwarded conn w @ forwarded conn w'"
  by (induction conn w rule: forwarded.induct) auto

lemma forwarded_fresh:
  "(\<forall>b. ConnWrite conn b \<notin> set w) \<Longrightarrow> forwarded conn w = []"
  by (induction conn w rule: forwarded.induct) auto

lemma Write_inv:
  assumes inv: "writesInv bs (c, w)" and wr: "Write lib nw (c, w) buf = Some (r, c', w')"
  shows "r \<noteq> Panicked \<and> writesInv (bs @ (if buf = connectionPreface then [] else buf)) (c', w')"
proof (cases "buf = connectionPreface")
  case True
  with wr inv show ?thesis by (auto simp: Write_preface)
next
  case np: False
  show ?thesis
  proof (cases "h2conn c")
    case (Some conn)
    with wr np have r: "r = Returned (connWrite nw conn buf)" "c' = c" "w' = w @ [ConnWrite conn buf]"
      by (auto simp: Write_live)
    with inv Some np show ?thesis
      by (auto simp: writesInv_def forwarded_append less_Suc_eq)
  next
    case None
    from inv None have ids: "\<forall>conn b. ConnWrite conn b \<in> set w \<longrightarrow> connHandle conn < length w"
      and pb: "peekBuf c = bs" and nc: "\<not> h2ConnCreated c"
      by (auto simp: writesInv_def)
    from None np wr show ?thesis
    proof (cases rule: Write_buffering_cases)
      case (peekErr e)
      with ids pb nc None np show ?thesis by (auto simp: writesInv_def)
    next
      case noHeaders
      with ids pb nc None np show ?thesis by (auto simp: writesInv_def)
    next
      case (headers hb ro)
      from headers(3) show ?thesis
      proof (cases rule: onHeadersBuf_cases)
        case (early err)
        with headers ids pb nc None np show ?thesis by (auto simp: writesInv_def)
      next
        case (dial err a)
        with headers ids pb nc None np show ?thesis by (auto simp: writesInv_def less_Suc_eq)
      next
        case (flush err a conn)
        with headers ids pb nc None np show ?thesis by (auto simp: writesInv_def less_Suc_eq)
      next
        case panic
        with nc show ?thesis by simp
      next
        case (ok a conn)
        from ids ok(5) have "\<forall>b. ConnWrite conn b \<notin> set w" by auto
        then have "forwarded conn w = []" by (rule forwarded_fresh)
        with ok headers ids pb nc None np show ?thesis
          by (auto simp: writesInv_def forwarded_append less_Suc_eq)
      qed
    qed
  qed
qed

lemma writes_inv:
  assumes "writes lib xs cw = Some (rs, cw')" and "writesInv bs cw"
  shows "writesInv (bs @ concat (filter (\<lambda>b. b \<noteq> connectionPreface) (map snd xs))) cw'"
  using assms
proof (induction xs arbitrary: cw rs bs)
  case Nil
  then show ?case by simp
next
  case (Cons x xs)
  obtain c w where cw: "cw = (c, w)" by (cases cw)
  from Cons.prems(1) obtain r c1 w1 where wr: "Write lib (fst x) (c, w) (snd x) = Some (r, c1, w1)"
    by (auto simp: cw split: option.splits)
  from Write_inv [OF Cons.prems(2) [unfolded cw] wr]
  have np: "r \<noteq> Panicked"
    and inv1: "writesInv (bs @ (if snd x = connectionPreface then [] else snd x)) (c1, w1)"
    by auto
  from np obtain v where r: "r = Returned v" by (cases r) auto
  from Cons.prems(1) wr r obtain rs1 where rest: "writes lib xs (c1, w1) = Some (rs1, cw')"
    by (auto simp: cw split: option.splits)
  from Cons.IH [OF rest inv1] show ?case by (auto)
qed

lemma writesInv_new: "writesInv [] (NewH2AdaptorConn, [])"
  by (simp add: writesInv_def NewH2AdaptorConn_def)

section \<open>The claims\<close>

subsection \<open>Order of the forwarded bytes\<close>

text \<open>
  C1. A new connection is written to any number of times, no buffer being the connection
  preface, on any network and with any frame reader and header decoder. If the connection
  has an upstream when the calls are over, the bytes handed to that upstream (the flush
  of \<^verbatim>\<open>onHeadersBuf\<close> and the writes forwarded after it) are the preface followed by
  all the bytes the caller wrote, in order, each once.
\<close>

theorem writes_order_preserved:
  assumes "writes lib xs (NewH2AdaptorConn, []) = Some (rs, c, w)"
    and "\<forall>x \<in> set xs. snd x \<noteq> connectionPreface"
    and "h2conn c = Some conn"
  shows "forwarded conn w = connectionPreface @ concat (map snd xs)"
proof -
  from assms(2) have "filter (\<lambda>b. b \<noteq> connectionPreface) (map snd xs) = map snd xs"
    by (induction xs) auto
  with writes_inv [OF assms(1) writesInv_new] assms(3) show ?thesis
    by (simp add: writesInv_def)
qed

theorem writes_order_preserved_witness:
  "writes wireLibs
     [(netProto ''h2'', take 5 exampleRequest), (netProto ''h2'', drop 5 exampleRequest),
      (netProto ''h2'', [1, 2, 3])] (NewH2AdaptorConn, []) =
   Some ([Returned (5, None), Returned (18, None), Returned (3, None)],
         \<lparr>peekBuf = exampleRequest, h2conn = Some exampleConn, h2ConnCreated = True\<rparr>,
         [TlsDial ''example.com:443'', ConnWrite exampleConn (connectionPreface @ exampleRequest),
          SetH2conn exampleConn, CloseH2ConnCreated, ConnWrite exampleConn [1, 2, 3]]) \<and>
   forwarded exampleConn
     [TlsDial ''example.com:443'', ConnWrite exampleConn (connectionPreface @ exampleRequest),
      SetH2conn exampleConn, CloseH2ConnCreated, ConnWrite exampleConn [1, 2, 3]] =
   connectionPreface @ take 5 exampleRequest @ drop 5 exampleRequest @ [1, 2, 3]"
proof -
  have run: "writes wireLibs
     [(netProto ''h2'', take 5 exampleRequest), (netProto ''h2'', drop 5 exampleRequest),
      (netProto ''h2'', [1, 2, 3])] (NewH2AdaptorConn, []) =
   Some ([Returned (5, None), Returned (18, None), Returned (3, None)],
         \<lparr>peekBuf = exampleRequest, h2conn = Some exampleConn, h2ConnCreated = True\<rparr>,
         [TlsDial ''example.com:443'', ConnWrite exampleConn (connectionPreface @ exampleRequest),
          SetH2conn exampleConn, CloseH2ConnCreated, ConnWrite exampleConn [1, 2, 3]])"
    by (simp add: write_eval wire_eval)
  have np: "\<forall>x \<in> set [(netProto ''h2'', take 5 exampleRequest),
      (netProto ''h2'', drop 5 exampleRequest), (netProto ''h2'', [1, 2, 3])]. snd x \<noteq> connectionPreface"
    by (simp add: wire_eval)
  have live: "h2conn \<lparr>peekBuf = exampleRequest, h2conn = Some exampleConn, h2ConnCreated = True\<rparr>
      = Some exampleConn" by simp
  from writes_order_preserved [OF run np live] run show ?thesis by simp
qed

subsection \<open>The connection preface\<close>

text \<open>
  C2, as amended. If the connection has an upstream when the calls are over, the upstream
  has been handed the preface once, at the head of the flush, and after it the buffers
  the caller wrote with every buffer that is the whole preface left out: a preface
  written in one call is neither stored nor forwarded. A preface split over several calls
  is not recognised; its pieces are buffered like any other bytes.
\<close>

theorem writes_preface_once:
  assumes "writes lib xs (NewH2AdaptorConn, []) = Some (rs, c, w)"
    and "h2conn c = Some conn"
  shows "forwarded conn w =
           connectionPreface @ concat (filter (\<lambda>b. b \<noteq> connectionPreface) (map snd xs))"
  using writes_inv [OF assms(1) writesInv_new] assms(2) by (simp add: writesInv_def)

theorem writes_preface_once_witness:
  "writes wireLibs
     [(netProto ''h2'', connectionPreface), (netProto ''h2'', exampleRequest),
      (netProto ''h2'', connectionPreface), (netProto ''h2'', [1, 2, 3])] (NewH2AdaptorConn, []) =
   Some ([Returned (24, None), Returned (23, None), Returned (24, None), Returned (3, None)],
         \<lparr>peekBuf = exampleRequest, h2conn = Some exampleConn, h2ConnCreated = True\<rparr>,
         [TlsDial ''example.com:443'', ConnWrite exampleConn (connectionPreface @ exampleRequest),
          SetH2conn exampleConn, CloseH2ConnCreated, ConnWrite exampleConn [1, 2, 3]]) \<and>
   forwarded exampleConn
     [TlsDial ''example.com:443'', ConnWrite exampleConn (connectionPreface @ exampleRequest),
      SetH2conn exampleConn, CloseH2ConnCreated, ConnWrite exampleConn [1, 2, 3]] =
   connectionPreface @ exampleRequest @ [1, 2, 3]"
proof -
  have run: "writes wireLibs
     [(netProto ''h2'', connectionPreface), (netProto ''h2'', exampleRequest),
      (netProto ''h2'', connectionPreface), (netProto ''h2'', [1, 2, 3])] (NewH2AdaptorConn, []) =
   Some ([Returned (24, None), Returned (23, None), Returned (24, None), Returned (3, None)],
         \<lparr>peekBuf = exampleRequest, h2conn = Some exampleConn, h2ConnCreated = True\<rparr>,
         [TlsDial ''example.com:443'', ConnWrite exampleConn (connectionPreface @ exampleRequest),
          SetH2conn exampleConn, CloseH2ConnCreated, ConnWrite exampleConn [1, 2, 3]])"
    by (simp add: write_eval wire_eval)
  have live: "h2conn \<lparr>peekBuf = exampleRequest, h2conn = Some exampleConn, h2ConnCreated = True\<rparr>
      = Some exampleConn" by simp
  have flt: "concat (filter (\<lambda>b. b \<noteq> connectionPreface)
      (map snd [(netProto ''h2'', connectionPreface), (netProto ''h2'', exampleRequest),
      (netProto ''h2'', connectionPreface), (netProto ''h2'', [1, 2, 3])])) = exampleRequest @ [1, 2, 3]"
    by (simp add: wire_eval)
  from writes_preface_once [OF run live] run flt show ?thesis by simp
qed

text \<open>
  The claim as it stands fails for a preface written in two pieces: the pieces stay in
  \<^verbatim>\<open>peekBuf\<close>, where the framer reads \<^verbatim>\<open>PRI\<close> as the length 0x505249 of a frame that
  never completes, so the request that follows dials no upstream and the preface is
  forwarded zero times.
\<close>

theorem writes_split_preface_counterexample:
  "writes wireLibs
     [(netProto ''h2'', take 10 connectionPreface), (netProto ''h2'', drop 10 connectionPreface),
      (netProto ''h2'', exampleRequest)] (NewH2AdaptorConn, []) =
   Some ([Returned (10, None), Returned (14, None), Returned (23, None)],
         \<lparr>peekBuf = connectionPreface @ exampleRequest, h2conn = None, h2ConnCreated = False\<rparr>, [])"
  by (simp add: write_eval wire_eval)

subsection \<open>Writes on a live connection\<close>

text \<open>
  C3, as amended. While the connection has an upstream, a buffer other than the preface
  is handed to the upstream as it is and what the upstream's \<^verbatim>\<open>Write\<close> returns is returned
  unchanged; a buffer equal to the preface is acknowledged with its length and no error
  and is not forwarded, as the test on the preface comes first in \<^verbatim>\<open>Write\<close>.
\<close>

theorem Write_live_forwards:
  assumes "h2conn c = Some conn"
  shows "(buf \<noteq> connectionPreface \<longrightarrow>
            Write lib nw (c, w) buf =
              Some (Returned (connWrite nw conn buf), c, w @ [ConnWrite conn buf])) \<and>
         (buf = connectionPreface \<longrightarrow>
            Write lib nw (c, w) buf = Some (Returned (24, None), c, w))"
  using assms by (auto simp: Write_live Write_preface)

theorem Write_live_forwards_witness:
  "Write wireLibs netDown
     (\<lparr>peekBuf = exampleRequest, h2conn = Some exampleConn, h2ConnCreated = True\<rparr>, []) [1, 2, 3] =
   Some (Returned (0, Some (LibraryError ''broken pipe'')),
         \<lparr>peekBuf = exampleRequest, h2conn = Some exampleConn, h2ConnCreated = True\<rparr>,
         [ConnWrite exampleConn [1, 2, 3]])"
proof -
  have h: "h2conn \<lparr>peekBuf = exampleRequest, h2conn = Some exampleConn, h2ConnCreated = True\<rparr>
             = Some exampleConn" by simp
  have n: "[1, 2, 3] \<noteq> connectionPreface" by (simp add: connectionPreface_def)
  from Write_live_forwards [OF h, of "[1, 2, 3]" wireLibs netDown "[]"] n
  show ?thesis by (simp add: netDown_def)
qed

text \<open>
  The claim as it stands fails for the preface: written to a live connection whose
  upstream would fail every write, it returns 24 and no error, and the upstream is not
  called.
\<close>

theorem Write_live_preface_counterexample:
  "writes wireLibs [(netProto ''h2'', exampleRequest), (netDown, connectionPreface)]
     (NewH2AdaptorConn, []) =
   Some ([Returned (23, None), Returned (24, None)],
         \<lparr>peekBuf = exampleRequest, h2conn = Some exampleConn, h2ConnCreated = True\<rparr>,
         [TlsDial ''example.com:443'', ConnWrite exampleConn (connectionPreface @ exampleRequest),
          SetH2conn exampleConn, CloseH2ConnCreated]) \<and>
   connWrite netDown exampleConn connectionPreface = (0, Some (LibraryError ''broken pipe''))"
  by (simp add: write_eval wire_eval)

subsection \<open>Reader errors\<close>



text \<open>
  C5, as amended. A \<^verbatim>\<open>Write\<close> before any upstream is set never returns an error of
  \<^verbatim>\<open>ReadFrame\<close>, be the frame data incomplete or invalid: an error it returns is that of a
  continuation frame before its headers frame, or arose after the peek had found a header
  block (decoding, routing, dialling, the flush).
\<close>

theorem Write_error_origin:
  assumes "h2conn c = None"
    and "Write lib nw (c, w) buf = Some (Returned (n, Some e), c', w')"
  shows "(tryPeekHeaders lib (c\<lparr>peekBuf := peekBuf c @ buf\<rparr>) = Some (Inl e) \<and>
          e = ContinuationBeforeHeaders) \<or>
         (\<exists>headersBuf. headersBuf \<noteq> [] \<and>
            tryPeekHeaders lib (c\<lparr>peekBuf := peekBuf c @ buf\<rparr>) = Some (Inr headersBuf) \<and>
            fst (onHeadersBuf lib nw (c\<lparr>peekBuf := peekBuf c @ buf\<rparr>, w) headersBuf) =
              Returned (Some e))"
proof (cases "buf = connectionPreface")
  case True
  with assms(2) show ?thesis by (simp add: Write_preface)
next
  case False
  from assms(1) False assms(2) show ?thesis
  proof (cases rule: Write_buffering_cases)
    case (peekErr e')
    then have "e' = e" by simp
    with peekErr(1) peekLoop_only_error [of "ReadFrame lib" _ Map.empty e] show ?thesis
      by (simp add: tryPeekHeaders_def)
  next
    case noHeaders
    then show ?thesis by simp
  next
    case (headers hb ro)
    then have "ro = Returned (Some e)"
      by (auto split: outcome.splits option.splits)
    with headers show ?thesis by auto
  qed
qed

theorem Write_error_origin_witness:
  "Write wireLibs netDown (NewH2AdaptorConn, []) exampleRequest =
     Some (Returned (0, Some (LibraryError ''connection refused'')),
           NewH2AdaptorConn\<lparr>peekBuf := exampleRequest\<rparr>, [TlsDial ''example.com:443'']) \<and>
   (\<exists>headersBuf. headersBuf \<noteq> [] \<and>
      tryPeekHeaders wireLibs (NewH2AdaptorConn\<lparr>peekBuf := peekBuf NewH2AdaptorConn @ exampleRequest\<rparr>)
        = Some (Inr headersBuf) \<and>
      fst (onHeadersBuf wireLibs netDown
             (NewH2AdaptorConn\<lparr>peekBuf := peekBuf NewH2AdaptorConn @ exampleRequest\<rparr>, []) headersBuf)
        = Returned (Some (LibraryError ''connection refused'')))"
proof -
  have a: "h2conn NewH2AdaptorConn = None" by (simp add: NewH2AdaptorConn_def)
  have b: "Write wireLibs netDown (NewH2AdaptorConn, []) exampleRequest =
     Some (Returned (0, Some (LibraryError ''connection refused'')),
           NewH2AdaptorConn\<lparr>peekBuf := exampleRequest\<rparr>, [TlsDial ''example.com:443''])"
    by (simp add: write_eval wire_eval)
  from Write_error_origin [OF a b] b show ?thesis by simp
qed

text \<open>
  The claim as it stands fails for a HEADERS frame on stream 0, which the framer refuses
  with a protocol error: \<^verbatim>\<open>Write\<close> returns 9 and no error.
\<close>

theorem Write_invalid_frame_counterexample:
  "framerReadFrame (framerNew [0, 0, 0, 1, 4, 0, 0, 0, 0]) =
     Inl (LibraryError ''HEADERS frame with stream ID 0'') \<and>
   Write wireLibs (netProto ''h2'') (NewH2AdaptorConn, []) [0, 0, 0, 1, 4, 0, 0, 0, 0] =
     Some (Returned (9, None), NewH2AdaptorConn\<lparr>peekBuf := [0, 0, 0, 1, 4, 0, 0, 0, 0]\<rparr>, [])"
  by (simp add: write_eval wire_eval)

subsection \<open>A continuation frame before its headers frame\<close>

text \<open>
  The branch of \<^verbatim>\<open>tryPeekHeaders\<close> for such a frame: when \<^verbatim>\<open>ReadFrame\<close> returns a
  continuation frame for a stream of which no headers frame came before in this peek,
  the peek returns the error and \<^verbatim>\<open>Write\<close> returns 0 and that error. A framer with
  \<^verbatim>\<open>AllowIllegalReads\<close> set returns such a frame.
\<close>

theorem Write_continuation_before_headers:
  assumes "h2conn c = None" and "buf \<noteq> connectionPreface"
    and "readFrames n (ReadFrame lib) (NewFramer lib (peekBuf c @ buf)) = Some (fs, framer')"
    and "onFrames Map.empty fs = Next m"
    and "ReadFrame lib framer' = Inr (ContinuationFrame sid frag ended, framer'')"
    and "\<forall>f \<in> set fs. \<not> isHeadersFor sid f"
  shows "tryPeekHeaders lib (c\<lparr>peekBuf := peekBuf c @ buf\<rparr>) = Some (Inl ContinuationBeforeHeaders) \<and>
         Write lib nw (c, w) buf =
           Some (Returned (0, Some ContinuationBeforeHeaders), c\<lparr>peekBuf := peekBuf c @ buf\<rparr>, w)"
proof -
  from onFrames_dom [OF assms(4), of sid] assms(6) have none: "m sid = None" by simp
  have peek: "tryPeekHeaders lib (c\<lparr>peekBuf := peekBuf c @ buf\<rparr>) = Some (Inl ContinuationBeforeHeaders)"
    using peekLoop_frames [OF assms(3), of Map.empty] assms(4) peekLoop_frame [of "ReadFrame lib" framer' _ framer'' m, OF assms(5)] none
    by (simp add: tryPeekHeaders_def)
  from Write_peek_error [OF assms(1,2) peek] peek show ?thesis by simp
qed

theorem Write_continuation_before_headers_example:
  "Write illegalReadsLibs (netProto ''h2'') (NewH2AdaptorConn, []) [0, 0, 0, 9, 4, 0, 0, 0, 1] =
     Some (Returned (0, Some ContinuationBeforeHeaders),
           NewH2AdaptorConn\<lparr>peekBuf := [0, 0, 0, 9, 4, 0, 0, 0, 1]\<rparr>, [])"
proof -
  have a: "h2conn NewH2AdaptorConn = None" by (simp add: NewH2AdaptorConn_def)
  have b: "[0, 0, 0, 9, 4, 0, 0, 0, 1] \<noteq> connectionPreface" by (simp add: wire_eval)
  have c: "readFrames 0 (ReadFrame illegalReadsLibs)
      (NewFramer illegalReadsLibs (peekBuf NewH2AdaptorConn @ [0, 0, 0, 9, 4, 0, 0, 0, 1])) =
      Some ([], (framerNew [0, 0, 0, 9, 4, 0, 0, 0, 1])\<lparr>AllowIllegalReads := True\<rparr>)"
    by (simp add: wireLibs_def illegalReadsLibs_def NewH2AdaptorConn_def)
  have d: "onFrames Map.empty [] = Next Map.empty" by simp
  have e: "ReadFrame illegalReadsLibs ((framerNew [0, 0, 0, 9, 4, 0, 0, 0, 1])\<lparr>AllowIllegalReads := True\<rparr>)
      = Inr (ContinuationFrame 1 [] True,
             \<lparr>unread = [], lastHeaderStream = 0, AllowIllegalReads = True\<rparr>)"
    by (simp add: wire_eval)
  have f: "\<forall>f \<in> set []. \<not> isHeadersFor 1 f" by simp
  from Write_continuation_before_headers [OF a b c d e f, of "netProto ''h2''" "[]"]
  show ?thesis by (simp add: NewH2AdaptorConn_def)
qed

text \<open>
  The framer that \<^verbatim>\<open>http2.NewFramer\<close> returns does not: it hands on a CONTINUATION frame
  only for the stream whose header block is open, and that stream has an assembly buffer.
  With it the peek ends on every buffer, each frame read leaving fewer bytes, and never
  with an error; so does \<^verbatim>\<open>Write\<close>.
\<close>

lemma framerReadFrame_success:
  assumes "framerReadFrame fr = Inr (f, fr')" and "\<not> AllowIllegalReads fr"
  shows "length (unread fr') < length (unread fr) \<and> \<not> AllowIllegalReads fr' \<and>
         (case f of
            HeadersFrame sid frag ended \<Rightarrow>
              lastHeaderStream fr = 0 \<and> lastHeaderStream fr' = (if ended then 0 else sid)
          | ContinuationFrame sid frag ended \<Rightarrow>
              lastHeaderStream fr = sid \<and> sid \<noteq> 0 \<and> lastHeaderStream fr' = (if ended then 0 else sid)
          | OtherFrame \<Rightarrow> lastHeaderStream fr = 0 \<and> lastHeaderStream fr' = 0)"
proof -
  define r where "r = unread fr"
  define len where "len = unat (r ! 0) * 65536 + unat (r ! 1) * 256 + unat (r ! 2)"
  define ty where "ty = r ! 3"
  define flags where "flags = r ! 4"
  define sid where "sid = (push_bit 24 (ucast (r ! 5)) OR push_bit 16 (ucast (r ! 6))
                       OR push_bit 8 (ucast (r ! 7)) OR ucast (r ! 8)) AND (0x7FFFFFFF :: 32 word)"
  define rest where "rest = drop 9 r"
  from assms(1) have l9: "\<not> length r < 9" and lr: "\<not> length rest < len"
    by (auto simp: framerReadFrame_def Let_def r_def rest_def len_def split: if_splits)
  from assms(1) l9 lr obtain g where pf: "parseFrame ty flags sid (take len rest) = Inr g"
    by (cases "parseFrame ty flags sid (take len rest)")
       (auto simp: framerReadFrame_def Let_def r_def rest_def len_def ty_def flags_def sid_def
             split: if_splits)
  from assms(1) l9 lr pf have co: "checkFrameOrder (fr\<lparr>unread := drop len rest\<rparr>) ty flags sid = Inr fr'"
    and fg: "f = g"
    by (auto simp: framerReadFrame_def Let_def r_def rest_def len_def ty_def flags_def sid_def
             split: if_splits sum.splits)
  from l9 have shorter: "length (drop len rest) < length r" by (simp add: rest_def)
  from co assms(2) have u: "unread fr' = drop len rest" and a: "\<not> AllowIllegalReads fr'"
    by (auto simp: checkFrameOrder_def Let_def split: if_splits)
  show ?thesis
  proof (cases "ty = 1")
    case True
    with pf fg obtain frag where f: "f = HeadersFrame sid frag (flags AND 0x4 \<noteq> 0)"
      by (auto simp: parseFrame_def parseHeadersFrame_def Let_def split: if_splits)
    from co assms(2) True have "lastHeaderStream fr = 0"
      "lastHeaderStream fr' = (if flags AND 0x4 \<noteq> 0 then 0 else sid)"
      by (auto simp: checkFrameOrder_def Let_def split: if_splits)
    with f u a shorter show ?thesis by (simp add: r_def)
  next
    case n1: False
    show ?thesis
    proof (cases "ty = 9")
      case True
      with pf fg n1 have f: "f = ContinuationFrame sid (take len rest) (flags AND 0x4 \<noteq> 0)" and s0: "sid \<noteq> 0"
        by (auto simp: parseFrame_def parseContinuationFrame_def split: if_splits)
      from co assms(2) True have "lastHeaderStream fr = sid"
        "lastHeaderStream fr' = (if flags AND 0x4 \<noteq> 0 then 0 else sid)"
        by (auto simp: checkFrameOrder_def Let_def split: if_splits)
      with f s0 u a shorter show ?thesis by (simp add: r_def)
    next
      case False
      with pf fg n1 have f: "f = OtherFrame" by (simp add: parseFrame_def)
      from co assms(2) False n1 have "lastHeaderStream fr = 0" "lastHeaderStream fr' = 0"
        by (auto simp: checkFrameOrder_def Let_def split: if_splits)
      with f u a shorter show ?thesis by (simp add: r_def)
    qed
  qed
qed

lemma peekLoop_default_framer:
  assumes "\<not> AllowIllegalReads fr"
    and "lastHeaderStream fr \<noteq> 0 \<longrightarrow> m (lastHeaderStream fr) \<noteq> None"
  shows "\<exists>headersBuf. peekLoop framerReadFrame fr m = Some (Inr headersBuf)"
  using assms
proof (induction "length (unread fr)" arbitrary: fr m rule: less_induct)
  case less
  show ?case
  proof (cases "framerReadFrame fr")
    case (Inl err)
    then show ?thesis by (simp add: peekLoop_error)
  next
    case (Inr p)
    obtain f fr' where p: "p = (f, fr')" by (cases p)
    from Inr p have rd: "framerReadFrame fr = Inr (f, fr')" by simp
    note s = framerReadFrame_success [OF rd less.prems(1)]
    note step = peekLoop_frame [of framerReadFrame fr f fr' m, OF rd]
    show ?thesis
    proof (cases f)
      case (HeadersFrame sid frag ended)
      show ?thesis
      proof (cases ended)
        case True
        with HeadersFrame step show ?thesis by (simp add: Let_def)
      next
        case False
        let ?m = "m(sid \<mapsto> (case m sid of None \<Rightarrow> [] | Some b \<Rightarrow> b) @ frag)"
        from s HeadersFrame False have "\<exists>hb. peekLoop framerReadFrame fr' ?m = Some (Inr hb)"
          by (intro less.hyps) auto
        with HeadersFrame False step show ?thesis by (simp add: Let_def)
      qed
    next
      case (ContinuationFrame sid frag ended)
      with s less.prems(2) obtain b where b: "m sid = Some b" by auto
      show ?thesis
      proof (cases ended)
        case True
        with ContinuationFrame b step show ?thesis by (simp add: Let_def)
      next
        case False
        from s ContinuationFrame False have "\<exists>hb. peekLoop framerReadFrame fr' (m(sid \<mapsto> b @ frag)) = Some (Inr hb)"
          by (intro less.hyps) auto
        with ContinuationFrame False b step show ?thesis by (simp add: Let_def)
      qed
    next
      case OtherFrame
      from s OtherFrame have "\<exists>hb. peekLoop framerReadFrame fr' m = Some (Inr hb)"
        by (intro less.hyps) auto
      with OtherFrame step show ?thesis by simp
    qed
  qed
qed

lemma tryPeekHeaders_default_framer:
  "\<exists>headersBuf. tryPeekHeaders wireLibs c = Some (Inr headersBuf)"
  using peekLoop_default_framer [of "framerNew (peekBuf c)" Map.empty]
  by (simp add: tryPeekHeaders_def wireLibs_def framerNew_def)

lemma Write_default_framer_returns:
  "\<exists>r. Write wireLibs nw (c, w) buf = Some r"
proof -
  obtain hb where "tryPeekHeaders wireLibs (c\<lparr>peekBuf := peekBuf c @ buf\<rparr>) = Some (Inr hb)"
    using tryPeekHeaders_default_framer by blast
  then show ?thesis
    by (simp add: Write_def Let_def split: option.splits outcome.splits prod.splits)
qed

text \<open>
  C6. The claim is that a continuation frame for a stream with no headers frame before it
  makes the peek, and the \<^verbatim>\<open>Write\<close> that caused it, return the error "continuation
  frame received before headers frame". The code has the branch for it, and with the
  framer that \<^verbatim>\<open>tryPeekHeaders\<close> makes the branch is not reached: for the nine bytes of a
  CONTINUATION frame on stream 1, \<^verbatim>\<open>ReadFrame\<close> returns an error of its own, the loop takes
  it for missing input, and \<^verbatim>\<open>Write\<close> returns 9 and no error.
\<close>

theorem Write_orphan_continuation_default_framer:
  "framerReadFrame (framerNew [0, 0, 0, 9, 4, 0, 0, 0, 1]) =
     Inl (LibraryError ''unexpected CONTINUATION'') \<and>
   Write wireLibs (netProto ''h2'') (NewH2AdaptorConn, []) [0, 0, 0, 9, 4, 0, 0, 0, 1] =
     Some (Returned (9, None), NewH2AdaptorConn\<lparr>peekBuf := [0, 0, 0, 9, 4, 0, 0, 0, 1]\<rparr>, [])"
  by (simp add: write_eval wire_eval)

subsection \<open>Routing\<close>

text \<open>
  The guard of \<^verbatim>\<open>onHeadersBuf\<close>. A header block is decoded in which every
  \<^verbatim>\<open>:authority\<close> field, or every \<^verbatim>\<open>:scheme\<close> field, is empty (there may be none). Then
  \<^verbatim>\<open>onHeadersBuf\<close> returns the error "authority or scheme not found in headers" and
  leaves the connection and the log as they were: no \<^verbatim>\<open>tls.Dial\<close> was made, on any
  network. When the block has at least one byte, the \<^verbatim>\<open>Write\<close> whose peek found it calls
  \<^verbatim>\<open>onHeadersBuf\<close> and returns 0 and that error.
\<close>

theorem onHeadersBuf_routing_error:
  assumes "DecodeFull lib headersBuf = Inr headers"
    and "(\<forall>h \<in> set headers. Name h = '':authority'' \<longrightarrow> Value h = []) \<or>
         (\<forall>h \<in> set headers. Name h = '':scheme'' \<longrightarrow> Value h = [])"
  shows "onHeadersBuf lib nw (c, w) headersBuf = (Returned (Some AuthorityOrSchemeNotFound), c, w) \<and>
         (h2conn c = None \<and> buf \<noteq> connectionPreface \<and> headersBuf \<noteq> [] \<and>
          tryPeekHeaders lib (c\<lparr>peekBuf := peekBuf c @ buf\<rparr>) = Some (Inr headersBuf) \<longrightarrow>
          Write lib nw (c, w) buf =
            Some (Returned (0, Some AuthorityOrSchemeNotFound), c\<lparr>peekBuf := peekBuf c @ buf\<rparr>, w))"
proof -
  from assms(2) have "getValueByKeyFromHeaders headers '':authority'' = []
      \<or> getValueByKeyFromHeaders headers '':scheme'' = []"
    using getValueByKeyFromHeaders_empty by blast
  with assms(1) have "\<And>c. onHeadersBuf lib nw (c, w) headersBuf =
      (Returned (Some AuthorityOrSchemeNotFound), c, w)"
    by (auto simp: onHeadersBuf_def Let_def)
  then show ?thesis by (simp add: Write_def)
qed

theorem onHeadersBuf_routing_error_example:
  "hpackDecodeFull [0x87] = Inr [HeaderField '':scheme'' ''https''] \<and>
   onHeadersBuf wireLibs (netProto ''h2'') (NewH2AdaptorConn, []) [0x87] =
     (Returned (Some AuthorityOrSchemeNotFound), NewH2AdaptorConn, []) \<and>
   Write wireLibs (netProto ''h2'') (NewH2AdaptorConn, []) schemeOnlyRequest =
     Some (Returned (0, Some AuthorityOrSchemeNotFound),
           NewH2AdaptorConn\<lparr>peekBuf := schemeOnlyRequest\<rparr>, [])"
proof -
  have a: "DecodeFull wireLibs [0x87] = Inr [HeaderField '':scheme'' ''https'']"
    by (simp add: wire_eval)
  have b: "(\<forall>h \<in> set [HeaderField '':scheme'' ''https'']. Name h = '':authority'' \<longrightarrow> Value h = []) \<or>
           (\<forall>h \<in> set [HeaderField '':scheme'' ''https'']. Name h = '':scheme'' \<longrightarrow> Value h = [])"
    by simp
  have c: "h2conn NewH2AdaptorConn = None \<and> schemeOnlyRequest \<noteq> connectionPreface \<and> [0x87] \<noteq> ([] :: byte list) \<and>
      tryPeekHeaders wireLibs (NewH2AdaptorConn\<lparr>peekBuf := peekBuf NewH2AdaptorConn @ schemeOnlyRequest\<rparr>)
        = Some (Inr [0x87])"
    by (simp add: write_eval wire_eval)
  from onHeadersBuf_routing_error [OF a b, of "netProto ''h2''" NewH2AdaptorConn "[]" schemeOnlyRequest] a c
  show ?thesis by (simp add: wireLibs_def NewH2AdaptorConn_def)
qed

text \<open>
  C7. The claim is that every header block without a usable \<^verbatim>\<open>:authority\<close> or
  \<^verbatim>\<open>:scheme\<close> makes \<^verbatim>\<open>Write\<close> return the routing error. The guard of \<^verbatim>\<open>onHeadersBuf\<close>
  does so for every block it is given, and for the block of no bytes it is not called: a
  HEADERS frame with END_HEADERS and an empty fragment is a complete header block that
  decodes to no field, but \<^verbatim>\<open>buf.Bytes()\<close> of the assembly buffer is then \<^verbatim>\<open>nil\<close>, which
  \<^verbatim>\<open>Write\<close> takes for "no header block yet" (\<^verbatim>\<open>headersBuf != nil\<close>). \<^verbatim>\<open>Write\<close> returns 9
  and no error, and as every later peek ends at that frame, a request written after it
  is buffered and never resolved.
\<close>

theorem Write_empty_header_block:
  "framerReadFrame (framerNew emptyBlockRequest) =
     Inr (HeadersFrame 1 [] True,
          \<lparr>unread = [], lastHeaderStream = 0, AllowIllegalReads = False\<rparr>) \<and>
   tryPeekHeaders wireLibs (NewH2AdaptorConn\<lparr>peekBuf := emptyBlockRequest\<rparr>) = Some (Inr []) \<and>
   hpackDecodeFull [] = Inr [] \<and>
   onHeadersBuf wireLibs (netProto ''h2'') (NewH2AdaptorConn\<lparr>peekBuf := emptyBlockRequest\<rparr>, []) [] =
     (Returned (Some AuthorityOrSchemeNotFound),
      NewH2AdaptorConn\<lparr>peekBuf := emptyBlockRequest\<rparr>, []) \<and>
   Write wireLibs (netProto ''h2'') (NewH2AdaptorConn, []) emptyBlockRequest =
     Some (Returned (9, None), NewH2AdaptorConn\<lparr>peekBuf := emptyBlockRequest\<rparr>, []) \<and>
   writes wireLibs [(netProto ''h2'', emptyBlockRequest), (netProto ''h2'', exampleRequest)]
     (NewH2AdaptorConn, []) =
     Some ([Returned (9, None), Returned (23, None)],
           \<lparr>peekBuf = emptyBlockRequest @ exampleRequest, h2conn = None, h2ConnCreated = False\<rparr>,
           [])"
  by (simp add: write_eval wire_eval)

subsection \<open>The negotiated protocol\<close>

text \<open>
  C8. When \<^verbatim>\<open>tls.Dial\<close> succeeds and the handshake negotiated \<open>protocol\<close>,
  \<^verbatim>\<open>dialHTTP2Conn\<close> returns the TLS connection itself for \<^verbatim>\<open>h2\<close>, the connection that
  \<^verbatim>\<open>newHttp2OverHttp1Conn\<close> makes of it for \<^verbatim>\<open>http/1.1\<close>, and for any other protocol, the
  empty one among them, an error and no connection.
\<close>

theorem dialHTTP2Conn_negotiated_protocol:
  assumes "tlsDial nw (host @ '':443'') = Inr protocol"
  shows "(protocol = ''h2'' \<longrightarrow>
            fst (dialHTTP2Conn nw w host scheme) =
              Inr (Tls (TlsConn (length w) (host @ '':443'') protocol), protocol)) \<and>
         (protocol = ''http/1.1'' \<longrightarrow>
            fst (dialHTTP2Conn nw w host scheme) =
              Inr (newHttp2OverHttp1Conn (TlsConn (length w) (host @ '':443'') protocol), protocol)) \<and>
         (protocol \<noteq> ''h2'' \<and> protocol \<noteq> ''http/1.1'' \<longrightarrow>
            fst (dialHTTP2Conn nw w host scheme) = Inl (UnexpectedProtocol protocol))"
  using assms by (simp add: dialHTTP2Conn_def Let_def)

theorem dialHTTP2Conn_negotiated_protocol_witness:
  "fst (dialHTTP2Conn (netProto ''h2'') [] ''example.com'' ''https'') =
     Inr (Tls (TlsConn 0 ''example.com:443'' ''h2''), ''h2'') \<and>
   fst (dialHTTP2Conn (netProto ''http/1.1'') [] ''example.com'' ''https'') =
     Inr (newHttp2OverHttp1Conn (TlsConn 0 ''example.com:443'' ''http/1.1''), ''http/1.1'') \<and>
   fst (dialHTTP2Conn (netProto []) [] ''example.com'' ''https'') = Inl (UnexpectedProtocol [])"
proof -
  have h: "\<And>p. tlsDial (netProto p) (''example.com'' @ '':443'') = Inr p"
    by (simp add: netProto_def)
  from dialHTTP2Conn_negotiated_protocol [OF h, of "''h2''" "[]" "''https''"]
    dialHTTP2Conn_negotiated_protocol [OF h, of "''http/1.1''" "[]" "''https''"]
    dialHTTP2Conn_negotiated_protocol [OF h, of "[]" "[]" "''https''"]
  show ?thesis by simp
qed

subsection \<open>The steps of a resolution\<close>

text \<open>
  C9, as amended. When \<^verbatim>\<open>onHeadersBuf\<close> succeeds it has, in this order, dialled, handed
  the upstream the preface and all of \<^verbatim>\<open>peekBuf\<close> in one write, set \<^verbatim>\<open>h2conn\<close> and closed
  \<^verbatim>\<open>h2ConnCreated\<close>, which was open. \<^verbatim>\<open>peekBuf\<close> is left as it was: nothing empties
  it.
\<close>

theorem onHeadersBuf_success:
  assumes "onHeadersBuf lib nw (c, w) headersBuf = (Returned None, c', w')"
  shows "\<exists>conn address.
           w' = w @ [TlsDial address, ConnWrite conn (connectionPreface @ peekBuf c),
                     SetH2conn conn, CloseH2ConnCreated] \<and>
           c' = c\<lparr>h2conn := Some conn, h2ConnCreated := True\<rparr> \<and>
           peekBuf c' = peekBuf c \<and> \<not> h2ConnCreated c"
  using assms by (cases rule: onHeadersBuf_cases) auto

theorem onHeadersBuf_success_witness:
  "onHeadersBuf wireLibs (netProto ''h2'') (NewH2AdaptorConn\<lparr>peekBuf := exampleRequest\<rparr>, [])
     (drop 9 exampleRequest) =
   (Returned None, \<lparr>peekBuf = exampleRequest, h2conn = Some exampleConn, h2ConnCreated = True\<rparr>,
    [TlsDial ''example.com:443'', ConnWrite exampleConn (connectionPreface @ exampleRequest),
     SetH2conn exampleConn, CloseH2ConnCreated]) \<and>
   (\<exists>conn address.
      [TlsDial ''example.com:443'', ConnWrite exampleConn (connectionPreface @ exampleRequest),
       SetH2conn exampleConn, CloseH2ConnCreated] =
        [] @ [TlsDial address,
              ConnWrite conn (connectionPreface @ peekBuf (NewH2AdaptorConn\<lparr>peekBuf := exampleRequest\<rparr>)),
              SetH2conn conn, CloseH2ConnCreated] \<and>
      \<lparr>peekBuf = exampleRequest, h2conn = Some exampleConn, h2ConnCreated = True\<rparr> =
        NewH2AdaptorConn\<lparr>peekBuf := exampleRequest, h2conn := Some conn, h2ConnCreated := True\<rparr> \<and>
      peekBuf \<lparr>peekBuf = exampleRequest, h2conn = Some exampleConn, h2ConnCreated = True\<rparr> =
        peekBuf (NewH2AdaptorConn\<lparr>peekBuf := exampleRequest\<rparr>) \<and>
      \<not> h2ConnCreated (NewH2AdaptorConn\<lparr>peekBuf := exampleRequest\<rparr>))"
proof -
  have h: "onHeadersBuf wireLibs (netProto ''h2'') (NewH2AdaptorConn\<lparr>peekBuf := exampleRequest\<rparr>, [])
             (drop 9 exampleRequest) =
           (Returned None, \<lparr>peekBuf = exampleRequest, h2conn = Some exampleConn, h2ConnCreated = True\<rparr>,
            [TlsDial ''example.com:443'', ConnWrite exampleConn (connectionPreface @ exampleRequest),
             SetH2conn exampleConn, CloseH2ConnCreated])"
    by (simp add: write_eval wire_eval)
  from h onHeadersBuf_success [OF h] show ?thesis by (rule conjI)
qed

text \<open>
  The claim as it stands fails where it has the buffer discarded: after the \<^verbatim>\<open>Write\<close>
  that resolves the example request, \<^verbatim>\<open>peekBuf\<close> still holds the request.
\<close>

theorem Write_keeps_peekBuf_counterexample:
  "Write wireLibs (netProto ''h2'') (NewH2AdaptorConn, []) exampleRequest =
     Some (Returned (23, None),
           \<lparr>peekBuf = exampleRequest, h2conn = Some exampleConn, h2ConnCreated = True\<rparr>,
           [TlsDial ''example.com:443'', ConnWrite exampleConn (connectionPreface @ exampleRequest),
            SetH2conn exampleConn, CloseH2ConnCreated]) \<and>
   exampleRequest \<noteq> []"
  by (simp add: write_eval wire_eval)

subsection \<open>The byte count of a buffering write\<close>

text \<open>
  C10. A \<^verbatim>\<open>Write\<close> before any upstream is set that returns no error returns the length
  of the buffer; one that returns an error returns 0, and \<^verbatim>\<open>peekBuf\<close> then holds the
  buffer at its end all the same. A buffer equal to the preface is acknowledged without
  an error and changes nothing.
\<close>

theorem Write_buffering_count:
  assumes "h2conn c = None"
    and "Write lib nw (c, w) buf = Some (Returned (n, err), c', w')"
  shows "(err = None \<longrightarrow> n = int (length buf)) \<and>
         (err \<noteq> None \<longrightarrow> n = 0 \<and> peekBuf c' = peekBuf c @ buf) \<and>
         (buf = connectionPreface \<longrightarrow> err = None \<and> c' = c \<and> w' = w)"
proof (cases "buf = connectionPreface")
  case True
  with assms(2) show ?thesis by (auto simp: Write_preface) (simp add: connectionPreface_def)
next
  case False
  from assms(1) False assms(2) show ?thesis
  proof (cases rule: Write_buffering_cases)
    case (peekErr e)
    with False show ?thesis by auto
  next
    case noHeaders
    with False show ?thesis by auto
  next
    case (headers hb ro)
    from headers(3) show ?thesis
      by (cases rule: onHeadersBuf_cases) (use headers(4) False in auto)
  qed
qed

theorem Write_buffering_count_witness:
  "Write wireLibs (netProto ''h2'') (NewH2AdaptorConn, []) exampleRequest =
     Some (Returned (23, None),
           \<lparr>peekBuf = exampleRequest, h2conn = Some exampleConn, h2ConnCreated = True\<rparr>,
           [TlsDial ''example.com:443'', ConnWrite exampleConn (connectionPreface @ exampleRequest),
            SetH2conn exampleConn, CloseH2ConnCreated]) \<and>
   (23 :: int) = int (length exampleRequest) \<and>
   Write wireLibs netDown (NewH2AdaptorConn, []) exampleRequest =
     Some (Returned (0, Some (LibraryError ''connection refused'')),
           NewH2AdaptorConn\<lparr>peekBuf := exampleRequest\<rparr>, [TlsDial ''example.com:443'']) \<and>
   peekBuf (NewH2AdaptorConn\<lparr>peekBuf := exampleRequest\<rparr>) = peekBuf NewH2AdaptorConn @ exampleRequest"
proof -
  have h: "h2conn NewH2AdaptorConn = None" by (simp add: NewH2AdaptorConn_def)
  have ok: "Write wireLibs (netProto ''h2'') (NewH2AdaptorConn, []) exampleRequest =
     Some (Returned (23, None),
           \<lparr>peekBuf = exampleRequest, h2conn = Some exampleConn, h2ConnCreated = True\<rparr>,
           [TlsDial ''example.com:443'', ConnWrite exampleConn (connectionPreface @ exampleRequest),
            SetH2conn exampleConn, CloseH2ConnCreated])"
    by (simp add: write_eval wire_eval)
  have bad: "Write wireLibs netDown (NewH2AdaptorConn, []) exampleRequest =
     Some (Returned (0, Some (LibraryError ''connection refused'')),
           NewH2AdaptorConn\<lparr>peekBuf := exampleRequest\<rparr>, [TlsDial ''example.com:443''])"
    by (simp add: write_eval wire_eval)
  from Write_buffering_count [OF h ok] Write_buffering_count [OF h bad] ok bad
  show ?thesis by simp
qed

end
